theory Spec2Isabelle
  imports Complex_Main "HOL-Library.AList"
begin

section \<open>License tiers (core/license_validator.py)\<close>

text \<open>
  The validator resolves the tier from the environment's license key on every call
  (the cache is keyed by the key, so it never changes the answer). The orchestrator only
  consumes the resolved tier, so every operation below that consults the license takes
  the tier that \<open>get_tier()\<close> returns at the moment of the call as a parameter.
\<close>

datatype LicenseTier = RONIN | ARCHITECT | SHOWRUNNER

definition FEATURE_TIERS :: "(string \<times> LicenseTier list) list" where
  "FEATURE_TIERS =
    [(''shadow_nodes'', [ARCHITECT, SHOWRUNNER]),
     (''visual_tracking'', [ARCHITECT, SHOWRUNNER]),
     (''multi_lora'', [ARCHITECT, SHOWRUNNER]),
     (''timeline_injection'', [ARCHITECT, SHOWRUNNER]),
     (''comic_mode'', [ARCHITECT, SHOWRUNNER]),
     (''collaboration'', [SHOWRUNNER]),
     (''team_sync'', [SHOWRUNNER]),
     (''white_labeling'', [SHOWRUNNER]),
     (''custom_grammars'', [SHOWRUNNER]),
     (''prose_mode'', [RONIN, ARCHITECT, SHOWRUNNER]),
     (''screenplay_mode'', [RONIN, ARCHITECT, SHOWRUNNER]),
     (''voice_engine'', [RONIN, ARCHITECT, SHOWRUNNER]),
     (''pure_mode'', [RONIN, ARCHITECT, SHOWRUNNER])]"

fun get_tier_name :: "LicenseTier \<Rightarrow> string" where
  "get_tier_name RONIN = ''ronin''"
| "get_tier_name ARCHITECT = ''architect''"
| "get_tier_name SHOWRUNNER = ''showrunner''"

definition can_access :: "LicenseTier \<Rightarrow> string \<Rightarrow> bool" where
  "can_access current_tier feature_name =
     (let allowed_tiers =
            (case map_of FEATURE_TIERS feature_name of None \<Rightarrow> [] | Some ts \<Rightarrow> ts)
      in if allowed_tiers = [] then True else current_tier \<in> set allowed_tiers)"

definition is_pro :: "LicenseTier \<Rightarrow> bool" where
  "is_pro current_tier = (current_tier \<in> set [ARCHITECT, SHOWRUNNER])"

definition can_access_feature :: "LicenseTier \<Rightarrow> string \<Rightarrow> bool" where
  "can_access_feature current_tier feature = can_access current_tier feature"

section \<open>The resource orchestrator (core/resource_manager.py)\<close>

datatype ModelState = COLD | WARM | HOT | COOLING

fun state_value :: "ModelState \<Rightarrow> string" where
  "state_value COLD = ''cold''"
| "state_value WARM = ''warm''"
| "state_value HOT = ''hot''"
| "state_value COOLING = ''cooling''"

text \<open>
  Timestamps are the values of \<open>time.time()\<close>, modelled as real numbers of seconds;
  each operation that reads the clock takes the reading as its parameter \<open>now\<close>.
\<close>

record ModelSlot =
  name :: string
  state :: ModelState
  last_used :: real
  keep_warm :: bool
  memory_mb :: int

text \<open>
  The two dictionaries keep insertion order, which the scans below follow, so they are
  association lists: assigning to a present key rewrites its entry in place, assigning to
  an absent key appends. The worker handle is \<open>None\<close>, or \<open>Some alive\<close> for a process
  object whose \<open>is_alive()\<close> currently answers \<open>alive\<close>.
\<close>

record ResourceOrchestrator =
  worker :: "bool option"
  model_slots :: "(string \<times> ModelSlot) list"
  active_locks :: "(string \<times> bool) list"
  MAX_CONCURRENT_MODELS :: int

definition IDLE_TIMEOUT_SECONDS :: real where
  "IDLE_TIMEOUT_SECONDS = 300"

definition MODEL_MEMORY :: "(string \<times> int) list" where
  "MODEL_MEMORY =
    [(''mistral-7b-quantized'', 4096),
     (''all-MiniLM-L6-v2'', 256),
     (''coqui-tts'', 512)]"

definition update_limits :: "LicenseTier \<Rightarrow> ResourceOrchestrator \<Rightarrow> ResourceOrchestrator" where
  "update_limits tier s =
     (if is_pro tier then s\<lparr>MAX_CONCURRENT_MODELS := 3\<rparr>
      else s\<lparr>MAX_CONCURRENT_MODELS := 1\<rparr>)"

text \<open>The constructor: the only caller of \<open>_update_limits\<close>.\<close>

definition init_orchestrator :: "LicenseTier \<Rightarrow> ResourceOrchestrator" where
  "init_orchestrator tier =
     update_limits tier
       \<lparr>worker = None, model_slots = [], active_locks = [], MAX_CONCURRENT_MODELS = 1\<rparr>"

definition ensure_worker_alive :: "ResourceOrchestrator \<Rightarrow> ResourceOrchestrator" where
  "ensure_worker_alive s =
     (if worker s = None \<or> worker s = Some False then s\<lparr>worker := Some True\<rparr> else s)"

definition locked :: "(string \<times> bool) list \<Rightarrow> string \<Rightarrow> bool" where
  "locked locks model_name = (model_name \<in> set (map fst locks))"

definition current_models :: "ResourceOrchestrator \<Rightarrow> int" where
  "current_models s = int (length (filter (\<lambda>(k, slot). state slot \<noteq> COLD) (model_slots s)))"

text \<open>
  The scan of \<open>_unload_oldest_model\<close>: the accumulator is \<open>(oldest_time, oldest_slot)\<close>,
  with \<open>None\<close> for the initial \<open>float('inf')\<close> and for no slot; the slot found is
  remembered by its key, which identifies the slot object in the table.
\<close>

fun oldest_scan ::
  "(string \<times> bool) list \<Rightarrow> (string \<times> ModelSlot) list \<Rightarrow> real option \<times> string option
     \<Rightarrow> real option \<times> string option" where
  "oldest_scan locks [] acc = acc"
| "oldest_scan locks ((k, slot) # rest) (oldest_time, oldest_slot) =
     (if state slot \<noteq> COLD \<and> \<not> locked locks k then
        (if (case oldest_time of None \<Rightarrow> True | Some t \<Rightarrow> last_used slot < t)
         then oldest_scan locks rest (Some (last_used slot), Some k)
         else oldest_scan locks rest (oldest_time, oldest_slot))
      else oldest_scan locks rest (oldest_time, oldest_slot))"

definition set_state :: "ModelState \<Rightarrow> ModelSlot \<Rightarrow> ModelSlot" where
  "set_state st slot = slot\<lparr>state := st\<rparr>"

definition unload_oldest_model :: "ResourceOrchestrator \<Rightarrow> ResourceOrchestrator" where
  "unload_oldest_model s =
     (case snd (oldest_scan (active_locks s) (model_slots s) (None, None)) of
        None \<Rightarrow> s
      | Some k \<Rightarrow> s\<lparr>model_slots := AList.map_entry k (set_state COLD) (model_slots s)\<rparr>)"

text \<open>
  \<open>request_model\<close> returns the slot now stored under \<open>model_name\<close> as the handle; the
  model returns the orchestrator, from which \<open>map_of (model_slots s) model_name\<close> reads
  that handle. The first clock reading, stored in a newly created slot, is overwritten
  two statements later, so one reading \<open>now\<close> stands for both.
\<close>

definition request_model ::
  "LicenseTier \<Rightarrow> string \<Rightarrow> bool \<Rightarrow> real \<Rightarrow> ResourceOrchestrator \<Rightarrow> ResourceOrchestrator" where
  "request_model tier model_name keep now s =
     (let s1 = (if current_models s \<ge> MAX_CONCURRENT_MODELS s then
                  (if \<not> can_access_feature tier ''multi_lora'' then unload_oldest_model s
                   else s)
                else s);
          slots1 = (if map_of (model_slots s1) model_name = None then
                      model_slots s1 @
                        [(model_name,
                          \<lparr>name = model_name, state = COLD, last_used = now, keep_warm = keep,
                           memory_mb = (case map_of MODEL_MEMORY model_name of
                                          None \<Rightarrow> 1024 | Some m \<Rightarrow> m)\<rparr>)]
                    else model_slots s1);
          slots2 = AList.map_entry model_name
                     (\<lambda>slot. slot\<lparr>last_used := now, keep_warm := keep, state := WARM\<rparr>) slots1
      in s1\<lparr>model_slots := slots2,
            active_locks := AList.update model_name True (active_locks s1)\<rparr>)"

definition release_lock :: "string \<Rightarrow> real \<Rightarrow> ResourceOrchestrator \<Rightarrow> ResourceOrchestrator" where
  "release_lock model_name now s =
     s\<lparr>active_locks := AList.delete model_name (active_locks s),
       model_slots := AList.map_entry model_name
                        (\<lambda>slot. let slot1 = slot\<lparr>last_used := now\<rparr>
                                in if \<not> keep_warm slot1 then slot1\<lparr>state := COOLING\<rparr> else slot1)
                        (model_slots s)\<rparr>"

definition idle_step :: "(string \<times> bool) list \<Rightarrow> real \<Rightarrow> string \<times> ModelSlot \<Rightarrow> string \<times> ModelSlot" where
  "idle_step locks current_time item =
     (case item of (k, slot) \<Rightarrow>
        if state slot \<in> set [WARM, COOLING] then
          (if \<not> locked locks k then
             (let idle_time = current_time - last_used slot
              in if idle_time > IDLE_TIMEOUT_SECONDS \<and> \<not> keep_warm slot
                 then (k, set_state COLD slot) else (k, slot))
           else (k, slot))
        else (k, slot))"

definition check_idle_models :: "real \<Rightarrow> ResourceOrchestrator \<Rightarrow> ResourceOrchestrator" where
  "check_idle_models current_time s =
     s\<lparr>model_slots := map (idle_step (active_locks s) current_time) (model_slots s)\<rparr>"

text \<open>
  The orchestrator's side of \<open>generate_text\<close>: the worker is (re)spawned, a comic request
  without the license returns before anything is queued, and otherwise the idle sweep
  runs once the worker's result has arrived. The result itself is the worker's.
\<close>

definition generate_text :: "LicenseTier \<Rightarrow> string \<Rightarrow> real \<Rightarrow> ResourceOrchestrator \<Rightarrow> ResourceOrchestrator" where
  "generate_text tier mode now s =
     (let s1 = ensure_worker_alive s
      in if mode \<noteq> ''screenplay'' \<and> mode = ''comic'' \<and> \<not> can_access_feature tier ''comic_mode''
         then s1
         else check_idle_models now s1)"

definition collapse_to_zero :: "bool \<Rightarrow> ResourceOrchestrator \<Rightarrow> ResourceOrchestrator" where
  "collapse_to_zero force s =
     (let s1 = (if worker s = Some True then s\<lparr>worker := None\<rparr> else s)
      in s1\<lparr>model_slots := map (\<lambda>(k, slot). (k, set_state COLD slot)) (model_slots s1),
            active_locks := []\<rparr>)"

record Status =
  worker_alive :: bool
  active_models :: "(string \<times> string \<times> int) list"
  status_locks :: "string list"
  max_concurrent :: int
  license_tier :: string

definition get_status :: "LicenseTier \<Rightarrow> ResourceOrchestrator \<Rightarrow> Status" where
  "get_status tier s =
     \<lparr>worker_alive = (worker s \<noteq> None \<and> worker s = Some True),
      active_models = map (\<lambda>(k, slot). (name slot, state_value (state slot), memory_mb slot))
                        (filter (\<lambda>(k, slot). state slot \<noteq> COLD) (model_slots s)),
      status_locks = map fst (active_locks s),
      max_concurrent = MAX_CONCURRENT_MODELS s,
      license_tier = get_tier_name tier\<rparr>"

text \<open>
  A history of the orchestrator: the calls made on it, each with the tier and the clock
  reading it sees, and the worker process ending on its own between two calls.
\<close>

datatype call =
    Request LicenseTier string bool real
  | Release string real
  | SweepIdle real
  | Generate LicenseTier string real
  | Collapse bool
  | WorkerExit

fun exec :: "ResourceOrchestrator \<Rightarrow> call \<Rightarrow> ResourceOrchestrator" where
  "exec s (Request tier model_name keep now) = request_model tier model_name keep now s"
| "exec s (Release model_name now) = release_lock model_name now s"
| "exec s (SweepIdle now) = check_idle_models now s"
| "exec s (Generate tier mode now) = generate_text tier mode now s"
| "exec s (Collapse force) = collapse_to_zero force s"
| "exec s WorkerExit = (if worker s = Some True then s\<lparr>worker := Some False\<rparr> else s)"

definition run :: "ResourceOrchestrator \<Rightarrow> call list \<Rightarrow> ResourceOrchestrator" where
  "run s calls = foldl exec s calls"

section \<open>The inference worker (core/inference_process.py)\<close>




text \<open>
  A task is a dictionary read with \<open>task.get(key, default)\<close>; each key is a field that
  is \<open>None\<close> when the key is absent.
\<close>

record task =
  task_type :: "string option"
  task_prompt :: "string option"
  task_prompts :: "string list option"
  task_mode :: "string option"
  task_max_tokens :: "int option"
  task_temperature :: "real option"
  task_grammar_path :: "string option"
  task_model_path :: "string option"
  task_context :: "string option"
  task_shadow_nodes :: "string option"
  task_use_shadow_nodes :: bool





definition DEFAULT_MODEL_PATH :: string where
  "DEFAULT_MODEL_PATH = ''./models/mistral-7b-quantized.gguf''"










definition requested_model_path :: "task \<Rightarrow> string" where
  "requested_model_path t =
     (case task_model_path t of None \<Rightarrow> DEFAULT_MODEL_PATH | Some p \<Rightarrow> p)"








section \<open>Predicates used in the statements\<close>

text \<open>No slot of the table is in state \<open>HOT\<close>.\<close>

definition slots_no_hot :: "(string \<times> ModelSlot) list \<Rightarrow> bool" where
  "slots_no_hot slots = (\<forall>item \<in> set slots. state (snd item) \<noteq> HOT)"

definition no_hot :: "ResourceOrchestrator \<Rightarrow> bool" where
  "no_hot s = slots_no_hot (model_slots s)"

text \<open>Every locked name has a slot, and that slot is \<open>WARM\<close>.\<close>

definition locks_ok :: "ResourceOrchestrator \<Rightarrow> bool" where
  "locks_ok s = (\<forall>n \<in> set (map fst (active_locks s)).
                   \<exists>slot. map_of (model_slots s) n = Some slot \<and> state slot = WARM)"

text \<open>The state of the slot stored under a name, if there is one.\<close>

definition slot_state :: "ResourceOrchestrator \<Rightarrow> string \<Rightarrow> ModelState option" where
  "slot_state s model_name = map_option state (map_of (model_slots s) model_name)"

text \<open>
  The condition under which the scan of \<open>_unload_oldest_model\<close> considers an entry, and
  the entries of the table that meet it. The \<open>keep_warm\<close> flag is not part of it.
\<close>

definition cand :: "(string \<times> bool) list \<Rightarrow> string \<times> ModelSlot \<Rightarrow> bool" where
  "cand locks item = (state (snd item) \<noteq> COLD \<and> \<not> locked locks (fst item))"

definition candidates :: "ResourceOrchestrator \<Rightarrow> (string \<times> ModelSlot) list" where
  "candidates s =
     filter (\<lambda>(k, slot). state slot \<noteq> COLD \<and> \<not> locked (active_locks s) k) (model_slots s)"







section \<open>Concrete runtimes and tasks\<close>






section \<open>Evaluation on concrete inputs\<close>

lemmas orch_defs = run_def init_orchestrator_def update_limits_def is_pro_def request_model_def
  current_models_def can_access_feature_def can_access_def FEATURE_TIERS_def
  unload_oldest_model_def locked_def MODEL_MEMORY_def release_lock_def check_idle_models_def
  idle_step_def set_state_def IDLE_TIMEOUT_SECONDS_def generate_text_def collapse_to_zero_def
  ensure_worker_alive_def get_status_def


section \<open>The state HOT is never assigned\<close>

lemma slots_no_hot_map_entry:
  "slots_no_hot xs \<Longrightarrow> (\<And>v. state v \<noteq> HOT \<Longrightarrow> state (f v) \<noteq> HOT) \<Longrightarrow>
     slots_no_hot (AList.map_entry k f xs)"
  by (induction xs) (auto simp: slots_no_hot_def)

lemma slots_no_hot_append:
  "slots_no_hot (xs @ ys) = (slots_no_hot xs \<and> slots_no_hot ys)"
  by (auto simp: slots_no_hot_def)

lemma no_hot_unload: "no_hot s \<Longrightarrow> no_hot (unload_oldest_model s)"
  by (simp add: no_hot_def unload_oldest_model_def set_state_def slots_no_hot_map_entry
           split: option.splits)

lemma no_hot_request:
  assumes "no_hot s" shows "no_hot (request_model tier n kw now s)"
proof -
  define s1 where "s1 = (if current_models s \<ge> MAX_CONCURRENT_MODELS s then
                  (if \<not> can_access_feature tier ''multi_lora'' then unload_oldest_model s
                   else s)
                else s)"
  have "no_hot s1" using assms no_hot_unload by (simp add: s1_def)
  then have a: "slots_no_hot (model_slots s1)" by (simp add: no_hot_def)
  have b: "slots_no_hot [(n, \<lparr>name = n, state = COLD, last_used = now, keep_warm = kw,
                           memory_mb = m\<rparr>)]" for m
    by (simp add: slots_no_hot_def)
  show ?thesis
    unfolding request_model_def s1_def[symmetric] no_hot_def Let_def
    by (simp add: slots_no_hot_map_entry slots_no_hot_append a b)
qed

lemma no_hot_release: "no_hot s \<Longrightarrow> no_hot (release_lock n now s)"
  by (simp add: no_hot_def release_lock_def Let_def slots_no_hot_map_entry)

lemma no_hot_sweep: "no_hot s \<Longrightarrow> no_hot (check_idle_models now s)"
  by (auto simp: no_hot_def slots_no_hot_def check_idle_models_def idle_step_def set_state_def Let_def split: if_splits)

lemma no_hot_ensure: "no_hot s \<Longrightarrow> no_hot (ensure_worker_alive s)"
  by (simp add: no_hot_def ensure_worker_alive_def)

lemma no_hot_generate: "no_hot s \<Longrightarrow> no_hot (generate_text tier mode now s)"
  by (simp add: generate_text_def Let_def no_hot_sweep no_hot_ensure)

lemma no_hot_collapse: "no_hot s \<Longrightarrow> no_hot (collapse_to_zero force s)"
  by (auto simp: no_hot_def slots_no_hot_def collapse_to_zero_def set_state_def Let_def)

lemma no_hot_exec: "no_hot s \<Longrightarrow> no_hot (exec s c)"
proof (cases c)
  case WorkerExit
  assume "no_hot s"
  then show ?thesis using WorkerExit by (simp add: no_hot_def)
qed (simp_all add: no_hot_request no_hot_release no_hot_sweep no_hot_generate no_hot_collapse)

lemma no_hot_run: "no_hot s \<Longrightarrow> no_hot (run s calls)"
  unfolding run_def by (induction calls arbitrary: s) (simp_all add: no_hot_exec)

lemma no_hot_init: "no_hot (init_orchestrator tier)"
  by (simp add: no_hot_def slots_no_hot_def init_orchestrator_def update_limits_def)

text \<open>
  Claim C10. No orchestrator operation ever assigns the state \<open>HOT\<close>: in every state
  reached from a freshly constructed orchestrator by any history of request, release,
  idle sweep, generate and collapse calls (and worker exits), every slot is \<open>COLD\<close>,
  \<open>WARM\<close> or \<open>COOLING\<close>.
\<close>

theorem hot_never_assigned:
  "\<forall>item \<in> set (model_slots (run (init_orchestrator tier) calls)).
     state (snd item) = COLD \<or> state (snd item) = WARM \<or> state (snd item) = COOLING"
proof
  fix item assume "item \<in> set (model_slots (run (init_orchestrator tier) calls))"
  with no_hot_run[OF no_hot_init, of tier calls] have "state (snd item) \<noteq> HOT"
    by (simp add: no_hot_def slots_no_hot_def)
  then show "state (snd item) = COLD \<or> state (snd item) = WARM \<or> state (snd item) = COOLING"
    by (cases "state (snd item)") auto
qed

theorem hot_never_assigned_witness:
  "(\<exists>item. item \<in> set (model_slots (run (init_orchestrator RONIN)
        [Request RONIN ''m1'' False 0, Generate RONIN ''prose'' 1, Release ''m1'' 2]))
      \<and> state (snd item) = COOLING)
   \<and> list_all (\<lambda>item. state (snd item) = COLD \<or> state (snd item) = WARM
                      \<or> state (snd item) = COOLING)
        (model_slots (run (init_orchestrator RONIN)
          [Request RONIN ''m1'' False 0, Generate RONIN ''prose'' 1, Release ''m1'' 2]))"
proof -
  have "state (snd (hd (model_slots (run (init_orchestrator RONIN)
          [Request RONIN ''m1'' False 0, Generate RONIN ''prose'' 1, Release ''m1'' 2])))) = COOLING"
     and "hd (model_slots (run (init_orchestrator RONIN)
          [Request RONIN ''m1'' False 0, Generate RONIN ''prose'' 1, Release ''m1'' 2]))
          \<in> set (model_slots (run (init_orchestrator RONIN)
          [Request RONIN ''m1'' False 0, Generate RONIN ''prose'' 1, Release ''m1'' 2]))"
    by (simp_all add: orch_defs)
  then show ?thesis
    using hot_never_assigned[of RONIN
       "[Request RONIN ''m1'' False 0, Generate RONIN ''prose'' 1, Release ''m1'' 2]"]
    unfolding list_all_iff by blast
qed

section \<open>Locked slots stay resident\<close>

lemma oldest_scan_found:
  "snd (oldest_scan locks xs acc) = Some k \<Longrightarrow>
     snd acc = Some k \<or> (\<not> locked locks k \<and> (\<exists>slot. (k, slot) \<in> set xs \<and> state slot \<noteq> COLD))"
proof (induction xs arbitrary: acc)
  case Nil
  then show ?case by simp
next
  case (Cons item xs)
  obtain k' slot where item: "item = (k', slot)" by (cases item)
  obtain ot os where acc: "acc = (ot, os)" by (cases acc)
  show ?case
    using Cons.IH[of "(Some (last_used slot), Some k')"] Cons.IH[of "(ot, os)"] Cons.prems
    unfolding item acc
    by (auto split: if_splits)
qed

lemma fst_idle_step: "fst (idle_step locks t item) = fst item"
  by (cases item) (simp add: idle_step_def Let_def)

lemma map_of_idle_step:
  "map_of (map (idle_step locks t) xs) n =
     map_option (\<lambda>slot. snd (idle_step locks t (n, slot))) (map_of xs n)"
proof (induction xs)
  case Nil
  then show ?case by simp
next
  case (Cons item xs)
  obtain k slot where item: "item = (k, slot)" by (cases item)
  have "idle_step locks t (k, slot) = (k, snd (idle_step locks t (k, slot)))"
    using fst_idle_step[of locks t "(k, slot)"] by (simp add: prod_eq_iff)
  then obtain slot' where st: "idle_step locks t (k, slot) = (k, slot')"
    and sn: "snd (idle_step locks t (k, slot)) = slot'" by simp
  show ?case using Cons.IH by (simp add: item st sn)
qed

lemma idle_step_locked: "locked locks n \<Longrightarrow> idle_step locks t (n, slot) = (n, slot)"
  by (simp add: idle_step_def)

lemma sweep_keeps_locked:
  "locked (active_locks s) n \<Longrightarrow>
     map_of (model_slots (check_idle_models now s)) n = map_of (model_slots s) n"
  by (cases "map_of (model_slots s) n")
     (simp_all add: check_idle_models_def map_of_idle_step idle_step_locked)

lemma unload_keeps_locked:
  "locked (active_locks s) n \<Longrightarrow>
     map_of (model_slots (unload_oldest_model s)) n = map_of (model_slots s) n"
proof (cases "snd (oldest_scan (active_locks s) (model_slots s) (None, None))")
  case None
  then show ?thesis by (simp add: unload_oldest_model_def)
next
  case (Some k)
  assume l: "locked (active_locks s) n"
  from oldest_scan_found[OF Some] have "\<not> locked (active_locks s) k" by simp
  with l have "k \<noteq> n" by auto
  then show ?thesis using Some by (simp add: unload_oldest_model_def map_of_map_entry)
qed

lemma unload_locks: "active_locks (unload_oldest_model s) = active_locks s"
  by (simp add: unload_oldest_model_def split: option.splits)

lemma locks_ok_unload: "locks_ok s \<Longrightarrow> locks_ok (unload_oldest_model s)"
  unfolding locks_ok_def unload_locks
  by (simp add: unload_keeps_locked locked_def)

lemma locks_ok_sweep: "locks_ok s \<Longrightarrow> locks_ok (check_idle_models now s)"
proof -
  have "active_locks (check_idle_models now s) = active_locks s"
    by (simp add: check_idle_models_def)
  then show "locks_ok s \<Longrightarrow> locks_ok (check_idle_models now s)"
    unfolding locks_ok_def by (simp add: sweep_keeps_locked locked_def)
qed

lemma locks_ok_request:
  assumes "locks_ok s" shows "locks_ok (request_model tier n kw now s)"
proof -
  define s1 where "s1 = (if current_models s \<ge> MAX_CONCURRENT_MODELS s then
                  (if \<not> can_access_feature tier ''multi_lora'' then unload_oldest_model s
                   else s)
                else s)"
  have s1: "locks_ok s1" using assms locks_ok_unload by (simp add: s1_def)
  show ?thesis
    unfolding locks_ok_def
  proof
    fix m assume "m \<in> set (map fst (active_locks (request_model tier n kw now s)))"
    then have m: "m = n \<or> m \<in> set (map fst (active_locks s1))"
      unfolding request_model_def s1_def[symmetric] Let_def
      by (simp add: update_keys split: if_splits)
    show "\<exists>slot. map_of (model_slots (request_model tier n kw now s)) m = Some slot \<and> state slot = WARM"
    proof (cases "m = n")
      case True
      then show ?thesis
        unfolding request_model_def s1_def[symmetric] Let_def
        by (cases "map_of (model_slots s1) n") (simp_all add: map_of_map_entry map_add_def)
    next
      case False
      with m s1 obtain slot where "map_of (model_slots s1) m = Some slot" "state slot = WARM"
        by (auto simp: locks_ok_def)
      with False show ?thesis
        unfolding request_model_def s1_def[symmetric] Let_def
        by (simp add: map_of_map_entry)
    qed
  qed
qed

lemma locks_ok_release: "locks_ok s \<Longrightarrow> locks_ok (release_lock n now s)"
  unfolding locks_ok_def release_lock_def
  by (auto simp: delete_keys map_of_map_entry)

lemma locks_ok_generate: "locks_ok s \<Longrightarrow> locks_ok (generate_text tier mode now s)"
proof -
  assume "locks_ok s"
  then have "locks_ok (ensure_worker_alive s)"
    by (simp add: locks_ok_def ensure_worker_alive_def)
  then show ?thesis by (simp add: generate_text_def Let_def locks_ok_sweep)
qed

lemma locks_ok_collapse: "locks_ok (collapse_to_zero force s)"
  by (simp add: locks_ok_def collapse_to_zero_def Let_def)

lemma locks_ok_exec: "locks_ok s \<Longrightarrow> locks_ok (exec s c)"
proof (cases c)
  case WorkerExit
  assume "locks_ok s"
  then show ?thesis using WorkerExit by (simp add: locks_ok_def)
qed (simp_all add: locks_ok_request locks_ok_release locks_ok_sweep locks_ok_generate locks_ok_collapse)

lemma locks_ok_run: "locks_ok s \<Longrightarrow> locks_ok (run s calls)"
  unfolding run_def by (induction calls arbitrary: s) (simp_all add: locks_ok_exec)

lemma locks_ok_init: "locks_ok (init_orchestrator tier)"
  by (simp add: locks_ok_def init_orchestrator_def update_limits_def)

text \<open>
  Claim C3. In every state reached from a freshly constructed orchestrator by any
  history of calls, every name in the lock set has a slot in state \<open>WARM\<close> or \<open>HOT\<close>;
  and in any state whatever, neither the idle sweep nor the eviction step of a request
  changes the slot of a locked name (so neither moves it to \<open>COLD\<close>).
\<close>

theorem locked_slots_stay_resident:
  "(\<forall>n \<in> set (map fst (active_locks (run (init_orchestrator tier) calls))).
      \<exists>slot. map_of (model_slots (run (init_orchestrator tier) calls)) n = Some slot
             \<and> (state slot = WARM \<or> state slot = HOT))
   \<and> (\<forall>s n now. locked (active_locks s) n \<longrightarrow>
         map_of (model_slots (check_idle_models now s)) n = map_of (model_slots s) n)
   \<and> (\<forall>s n. locked (active_locks s) n \<longrightarrow>
         map_of (model_slots (unload_oldest_model s)) n = map_of (model_slots s) n)"
  using locks_ok_run[OF locks_ok_init, of tier calls]
  by (auto simp: locks_ok_def sweep_keeps_locked unload_keeps_locked)

theorem locked_slots_stay_resident_witness:
  "locked (active_locks (run (init_orchestrator RONIN) [Request RONIN ''m1'' False 0])) ''m1''
   \<and> (\<exists>slot. map_of (model_slots (run (init_orchestrator RONIN)
                  [Request RONIN ''m1'' False 0])) ''m1'' = Some slot
             \<and> (state slot = WARM \<or> state slot = HOT))
   \<and> map_of (model_slots (check_idle_models 1000
         (run (init_orchestrator RONIN) [Request RONIN ''m1'' False 0]))) ''m1''
       = map_of (model_slots (run (init_orchestrator RONIN) [Request RONIN ''m1'' False 0])) ''m1''
   \<and> map_of (model_slots (unload_oldest_model
         (run (init_orchestrator RONIN) [Request RONIN ''m1'' False 0]))) ''m1''
       = map_of (model_slots (run (init_orchestrator RONIN) [Request RONIN ''m1'' False 0])) ''m1''"
proof -
  have l: "locked (active_locks (run (init_orchestrator RONIN) [Request RONIN ''m1'' False 0])) ''m1''"
    by (simp add: orch_defs)
  then have "''m1'' \<in> set (map fst (active_locks (run (init_orchestrator RONIN)
               [Request RONIN ''m1'' False 0])))"
    by (simp add: locked_def)
  then show ?thesis
    using l locked_slots_stay_resident[of RONIN "[Request RONIN ''m1'' False 0]"]
    by blast
qed

section \<open>The eviction scan and the table of slots\<close>

lemma oldest_scan_Cons:
  "oldest_scan locks (item # rest) (ot, os) =
     (if cand locks item \<and> (case ot of None \<Rightarrow> True | Some t \<Rightarrow> last_used (snd item) < t)
      then oldest_scan locks rest (Some (last_used (snd item)), Some (fst item))
      else oldest_scan locks rest (ot, os))"
  by (cases item; cases ot) (simp_all add: cand_def)

lemma oldest_scan_min:
  "oldest_scan locks xs (ot, os) = (ot', os') \<Longrightarrow>
     (\<forall>item \<in> set xs. cand locks item \<longrightarrow> (\<exists>t'. ot' = Some t' \<and> t' \<le> last_used (snd item)))
     \<and> (\<forall>t. ot = Some t \<longrightarrow> (\<exists>t'. ot' = Some t' \<and> t' \<le> t))
     \<and> ((ot', os') = (ot, os)
          \<or> (\<exists>item \<in> set xs. cand locks item \<and> os' = Some (fst item)
                 \<and> ot' = Some (last_used (snd item))))"
proof (induction xs arbitrary: ot os)
  case Nil
  then show ?case by simp
next
  case (Cons item rest)
  show ?case
  proof (cases "cand locks item \<and> (case ot of None \<Rightarrow> True | Some t \<Rightarrow> last_used (snd item) < t)")
    case True
    have "oldest_scan locks (item # rest) (ot, os)
            = oldest_scan locks rest (Some (last_used (snd item)), Some (fst item))"
      by (subst oldest_scan_Cons) (rule if_P[OF True])
    with Cons.prems
    have "oldest_scan locks rest (Some (last_used (snd item)), Some (fst item)) = (ot', os')"
      by simp
    from Cons.IH[OF this] True show ?thesis
      by (cases ot) (fastforce+)
  next
    case False
    have "oldest_scan locks (item # rest) (ot, os) = oldest_scan locks rest (ot, os)"
      by (subst oldest_scan_Cons) (rule if_not_P[OF False])
    with Cons.prems have "oldest_scan locks rest (ot, os) = (ot', os')"
      by simp
    from Cons.IH[OF this] False show ?thesis
      by (cases ot) (fastforce+)
  qed
qed








lemma candidates_cand: "set (candidates s) = {item \<in> set (model_slots s). cand (active_locks s) item}"
  by (auto simp: candidates_def cand_def)

lemma scan_none:
  assumes "snd (oldest_scan locks xs (None, None)) = None"
  shows "\<forall>item \<in> set xs. \<not> cand locks item"
proof -
  obtain ot' os' where r: "oldest_scan locks xs (None, None) = (ot', os')"
    by (cases "oldest_scan locks xs (None, None)")
  with assms have "os' = None" by simp
  with oldest_scan_min[OF r] show ?thesis by fastforce
qed

lemma scan_some:
  assumes "snd (oldest_scan locks xs (None, None)) = Some k"
  shows "\<exists>victim. (k, victim) \<in> set xs \<and> cand locks (k, victim)
           \<and> (\<forall>item \<in> set xs. cand locks item \<longrightarrow> last_used victim \<le> last_used (snd item))"
proof -
  obtain ot' os' where r: "oldest_scan locks xs (None, None) = (ot', os')"
    by (cases "oldest_scan locks xs (None, None)")
  with assms have os: "os' = Some k" by simp
  from oldest_scan_min[OF r] os obtain item where
    i: "item \<in> set xs" "cand locks item" "k = fst item" "ot' = Some (last_used (snd item))"
    by auto
  from oldest_scan_min[OF r] i(4)
  have "\<forall>item' \<in> set xs. cand locks item' \<longrightarrow> last_used (snd item) \<le> last_used (snd item')"
    by fastforce
  with i show ?thesis by (intro exI[of _ "snd item"]) auto
qed





lemma request_slot:
  "\<exists>slot. map_of (model_slots (request_model tier n kw now s)) n = Some slot
          \<and> state slot = WARM \<and> keep_warm slot = kw \<and> last_used slot = now"
proof -
  define s1 where "s1 = (if current_models s \<ge> MAX_CONCURRENT_MODELS s then
                  (if \<not> can_access_feature tier ''multi_lora'' then unload_oldest_model s
                   else s)
                else s)"
  show ?thesis
    unfolding request_model_def s1_def[symmetric] Let_def
    by (cases "map_of (model_slots s1) n") (simp_all add: map_of_map_entry map_add_def)
qed



lemma request_other:
  "j \<noteq> n \<Longrightarrow>
     map_of (model_slots (request_model tier n kw now s)) j
       = map_of (model_slots
           (if current_models s \<ge> MAX_CONCURRENT_MODELS s \<and> \<not> can_access_feature tier ''multi_lora''
            then unload_oldest_model s else s)) j"
proof -
  define s1 where "s1 = (if current_models s \<ge> MAX_CONCURRENT_MODELS s then
                  (if \<not> can_access_feature tier ''multi_lora'' then unload_oldest_model s
                   else s)
                else s)"
  have e: "(if current_models s \<ge> MAX_CONCURRENT_MODELS s \<and> \<not> can_access_feature tier ''multi_lora''
            then unload_oldest_model s else s) = s1"
    by (simp add: s1_def)
  assume "j \<noteq> n"
  then show ?thesis
    unfolding e unfolding request_model_def s1_def[symmetric] Let_def
    by (auto simp: map_of_map_entry map_add_def split: option.splits)
qed

lemma unload_effect:
  assumes "distinct (map fst (model_slots s))"
  shows "(candidates s = [] \<longrightarrow> unload_oldest_model s = s)
       \<and> (candidates s \<noteq> [] \<longrightarrow>
            (\<exists>k victim. (k, victim) \<in> set (candidates s)
               \<and> (\<forall>item \<in> set (candidates s). last_used victim \<le> last_used (snd item))
               \<and> unload_oldest_model s
                    = s\<lparr>model_slots := AList.map_entry k (set_state COLD) (model_slots s)\<rparr>
               \<and> map_of (model_slots (unload_oldest_model s))
                    = (map_of (model_slots s))(k \<mapsto> victim\<lparr>state := COLD\<rparr>)))"
proof (cases "snd (oldest_scan (active_locks s) (model_slots s) (None, None))")
  case None
  from scan_none[OF None] have "set (candidates s) = {}"
    by (simp add: candidates_cand)
  then have "candidates s = []" by simp
  moreover have "unload_oldest_model s = s"
    using None by (simp add: unload_oldest_model_def)
  ultimately show ?thesis by simp
next
  case (Some k)
  from scan_some[OF Some] obtain victim where
    v: "(k, victim) \<in> set (model_slots s)" "cand (active_locks s) (k, victim)"
       "\<forall>item \<in> set (model_slots s). cand (active_locks s) item \<longrightarrow> last_used victim \<le> last_used (snd item)"
    by blast
  have c: "(k, victim) \<in> set (candidates s)"
    using v(1,2) by (simp add: candidates_cand)
  have m: "\<forall>item \<in> set (candidates s). last_used victim \<le> last_used (snd item)"
    using v(3) by (simp add: candidates_cand)
  have u: "unload_oldest_model s
             = s\<lparr>model_slots := AList.map_entry k (set_state COLD) (model_slots s)\<rparr>"
    using Some by (simp add: unload_oldest_model_def)
  have "map_of (model_slots s) k = Some victim"
    using assms v(1) by simp
  then have mo: "map_of (model_slots (unload_oldest_model s))
               = (map_of (model_slots s))(k \<mapsto> victim\<lparr>state := COLD\<rparr>)"
    by (simp add: u map_of_map_entry set_state_def)
  show ?thesis
  proof (intro conjI impI)
    assume "candidates s = []"
    with c show "unload_oldest_model s = s" by simp
  next
    show "\<exists>k victim. (k, victim) \<in> set (candidates s)
               \<and> (\<forall>item \<in> set (candidates s). last_used victim \<le> last_used (snd item))
               \<and> unload_oldest_model s
                    = s\<lparr>model_slots := AList.map_entry k (set_state COLD) (model_slots s)\<rparr>
               \<and> map_of (model_slots (unload_oldest_model s))
                    = (map_of (model_slots s))(k \<mapsto> victim\<lparr>state := COLD\<rparr>)"
      using c m u mo by (intro exI[of _ k] exI[of _ victim]) simp
  qed
qed

section \<open>The concurrency limit\<close>









section \<open>Least-recently-used eviction\<close>




text \<open>
  Claim C2 (as amended). Given a table of exactly three slots A, B, C, none \<open>COLD\<close>,
  none locked, last used at 1, 2 and 3, and a limit of 3: a request for a fourth name by
  a caller whose tier lacks \<open>multi_lora\<close> sets exactly A to \<open>COLD\<close>, leaves B and C
  as they are, and makes the fourth slot \<open>WARM\<close>.
\<close>

theorem lru_evicts_oldest:
  assumes wf: "distinct (map fst (model_slots s))"
    and tab: "set (model_slots s) = {(a, A), (b, B), (c, C)}"
    and res: "state A \<noteq> COLD" "state B \<noteq> COLD" "state C \<noteq> COLD"
    and lu: "last_used A = 1" "last_used B = 2" "last_used C = 3"
    and unl: "\<not> locked (active_locks s) a" "\<not> locked (active_locks s) b"
             "\<not> locked (active_locks s) c"
    and d: "d \<notin> {a, b, c}"
    and lim: "MAX_CONCURRENT_MODELS s = 3"
    and tier: "\<not> can_access_feature tier ''multi_lora''"
  shows "map_of (model_slots (request_model tier d kw now s)) a = Some (A\<lparr>state := COLD\<rparr>)
       \<and> map_of (model_slots (request_model tier d kw now s)) b = Some B
       \<and> map_of (model_slots (request_model tier d kw now s)) c = Some C
       \<and> (\<exists>D. map_of (model_slots (request_model tier d kw now s)) d = Some D \<and> state D = WARM)"
proof -
  have ne: "A \<noteq> B" "A \<noteq> C" "B \<noteq> C" using lu by auto
  have "distinct (model_slots s)" using wf by (simp add: distinct_map)
  then have "length (model_slots s) = card (set (model_slots s))"
    by (simp add: distinct_card)
  also have "\<dots> = 3" using ne by (simp add: tab)
  finally have len: "length (model_slots s) = 3" .
  have "filter (\<lambda>(k, slot). state slot \<noteq> COLD) (model_slots s) = model_slots s"
    using res by (simp add: filter_id_conv tab)
  then have cnt: "current_models s = 3" by (simp add: current_models_def len)
  have cs: "set (candidates s) = {(a, A), (b, B), (c, C)}"
    using res unl by (auto simp: candidates_def tab)
  then have "candidates s \<noteq> []" by auto
  with unload_effect[OF wf] obtain k victim where
    v: "(k, victim) \<in> set (candidates s)"
       "\<forall>item \<in> set (candidates s). last_used victim \<le> last_used (snd item)"
       "map_of (model_slots (unload_oldest_model s))
          = (map_of (model_slots s))(k \<mapsto> victim\<lparr>state := COLD\<rparr>)"
    by blast
  from v(2) have "last_used victim \<le> 1" using lu(1) by (simp add: cs)
  with v(1) lu have kv: "k = a" "victim = A" by (auto simp: cs)
  have ma: "map_of (model_slots s) a = Some A" "map_of (model_slots s) b = Some B"
    "map_of (model_slots s) c = Some C"
    using wf by (simp_all add: tab)
  have abc: "a \<noteq> b" "a \<noteq> c"
    using ma ne by auto
  have ev: "(if current_models s \<ge> MAX_CONCURRENT_MODELS s \<and> \<not> can_access_feature tier ''multi_lora''
            then unload_oldest_model s else s) = unload_oldest_model s"
    using cnt lim tier by simp
  have "a \<noteq> d" "b \<noteq> d" "c \<noteq> d" using d by auto
  then have
    "map_of (model_slots (request_model tier d kw now s)) a = Some (A\<lparr>state := COLD\<rparr>)"
    "map_of (model_slots (request_model tier d kw now s)) b = Some B"
    "map_of (model_slots (request_model tier d kw now s)) c = Some C"
    using abc ma by (simp_all add: request_other ev v(3) kv)
  then show ?thesis using request_slot[of tier d kw now s] by blast
qed

theorem lru_evicts_oldest_witness:
  "(let A = \<lparr>name = ''A'', state = COOLING, last_used = 1, keep_warm = False, memory_mb = 1024\<rparr>;
        B = \<lparr>name = ''B'', state = WARM, last_used = 2, keep_warm = True, memory_mb = 1024\<rparr>;
        C = \<lparr>name = ''C'', state = COOLING, last_used = 3, keep_warm = False, memory_mb = 1024\<rparr>;
        s = \<lparr>worker = None, model_slots = [(''C'', C), (''A'', A), (''B'', B)],
             active_locks = [], MAX_CONCURRENT_MODELS = 3\<rparr>
    in \<not> can_access_feature RONIN ''multi_lora''
       \<and> map_of (model_slots (request_model RONIN ''D'' False 4 s)) ''A''
            = Some (A\<lparr>state := COLD\<rparr>)
       \<and> map_of (model_slots (request_model RONIN ''D'' False 4 s)) ''B'' = Some B
       \<and> map_of (model_slots (request_model RONIN ''D'' False 4 s)) ''C'' = Some C
       \<and> (\<exists>D. map_of (model_slots (request_model RONIN ''D'' False 4 s)) ''D'' = Some D
               \<and> state D = WARM))"
proof -
  define A where "A = \<lparr>name = ''A'', state = COOLING, last_used = 1, keep_warm = False, memory_mb = 1024\<rparr>"
  define B where "B = \<lparr>name = ''B'', state = WARM, last_used = 2, keep_warm = True, memory_mb = 1024\<rparr>"
  define C where "C = \<lparr>name = ''C'', state = COOLING, last_used = 3, keep_warm = False, memory_mb = 1024\<rparr>"
  define s where "s = \<lparr>worker = None, model_slots = [(''C'', C), (''A'', A), (''B'', B)],
             active_locks = [], MAX_CONCURRENT_MODELS = 3\<rparr>"
  have t: "\<not> can_access_feature RONIN ''multi_lora''"
    by (simp add: can_access_feature_def can_access_def FEATURE_TIERS_def)
  have "map_of (model_slots (request_model RONIN ''D'' False 4 s)) ''A'' = Some (A\<lparr>state := COLD\<rparr>)
       \<and> map_of (model_slots (request_model RONIN ''D'' False 4 s)) ''B'' = Some B
       \<and> map_of (model_slots (request_model RONIN ''D'' False 4 s)) ''C'' = Some C
       \<and> (\<exists>D. map_of (model_slots (request_model RONIN ''D'' False 4 s)) ''D'' = Some D
               \<and> state D = WARM)"
  proof (rule lru_evicts_oldest[where a = "''A''" and b = "''B''" and c = "''C''", OF _ _ _ _ _ _ _ _ _ _ _ _ _ t])
    show "distinct (map fst (model_slots s))" by (simp add: s_def)
    show "set (model_slots s) = {(''A'', A), (''B'', B), (''C'', C)}" by (auto simp: s_def)
    show "state A \<noteq> COLD" "state B \<noteq> COLD" "state C \<noteq> COLD" by (simp_all add: A_def B_def C_def)
    show "last_used A = 1" "last_used B = 2" "last_used C = 3" by (simp_all add: A_def B_def C_def)
    show "\<not> locked (active_locks s) ''A''" "\<not> locked (active_locks s) ''B''"
      "\<not> locked (active_locks s) ''C''" by (simp_all add: s_def locked_def)
    show "''D'' \<notin> {''A'', ''B'', ''C''}" by simp
    show "MAX_CONCURRENT_MODELS s = 3" by (simp add: s_def)
  qed
  with t show ?thesis
    unfolding Let_def A_def B_def C_def s_def by simp
qed

text \<open>
  The claim as stated fails: under a paid tier, which has \<open>multi_lora\<close>, the request for
  a fourth model evicts nothing; A stays resident and four slots are resident under a
  limit of 3.
\<close>

theorem lru_paid_tier_counterexample:
  "slot_state (run (init_orchestrator ARCHITECT)
       [Request ARCHITECT ''A'' False 1, Release ''A'' 1,
        Request ARCHITECT ''B'' False 2, Release ''B'' 2,
        Request ARCHITECT ''C'' False 3, Release ''C'' 3,
        Request ARCHITECT ''D'' False 4]) ''A'' = Some COOLING
   \<and> current_models (run (init_orchestrator ARCHITECT)
       [Request ARCHITECT ''A'' False 1, Release ''A'' 1,
        Request ARCHITECT ''B'' False 2, Release ''B'' 2,
        Request ARCHITECT ''C'' False 3, Release ''C'' 3,
        Request ARCHITECT ''D'' False 4]) = 4
   \<and> MAX_CONCURRENT_MODELS (run (init_orchestrator ARCHITECT)
       [Request ARCHITECT ''A'' False 1, Release ''A'' 1,
        Request ARCHITECT ''B'' False 2, Release ''B'' 2,
        Request ARCHITECT ''C'' False 3, Release ''C'' 3,
        Request ARCHITECT ''D'' False 4]) = 3"
  by (simp add: orch_defs slot_state_def)

section \<open>Collapse to zero\<close>

lemma collapse_slots_cold:
  "list_all (\<lambda>item. state (snd item) = COLD) (model_slots (collapse_to_zero force s))"
  by (simp add: collapse_to_zero_def Let_def list_all_iff set_state_def split_beta)

lemma collapse_twice:
  "collapse_to_zero force2 (collapse_to_zero force s) = collapse_to_zero force s"
  by (simp add: collapse_to_zero_def Let_def set_state_def split_beta comp_def)

lemma cold_filter_empty:
  "list_all (\<lambda>item. state (snd item) = COLD) xs \<Longrightarrow>
     filter (\<lambda>(k, slot). state slot \<noteq> COLD) xs = []"
  by (induction xs) (auto simp: split_beta)

lemma filter_empty_cold:
  "filter (\<lambda>(k, slot). state slot \<noteq> COLD) xs = [] \<Longrightarrow>
     list_all (\<lambda>item. state (snd item) = COLD) xs"
  by (induction xs) (auto simp: split_beta split: if_splits)

lemma collapse_status:
  "worker_alive (get_status tier (collapse_to_zero force s)) = False
   \<and> active_models (get_status tier (collapse_to_zero force s)) = []
   \<and> status_locks (get_status tier (collapse_to_zero force s)) = []"
proof -
  have "filter (\<lambda>(k, slot). state slot \<noteq> COLD) (model_slots (collapse_to_zero force s)) = []"
    by (rule cold_filter_empty[OF collapse_slots_cold])
  then show ?thesis
    by (simp add: get_status_def) (simp add: collapse_to_zero_def Let_def)
qed

lemma cold_map_id:
  "list_all (\<lambda>item. state (snd item) = COLD) xs \<Longrightarrow>
     map (\<lambda>(k, slot). (k, set_state COLD slot)) xs = xs"
  by (induction xs) (auto simp: set_state_def)

lemma all_cold_no_locks:
  assumes "locks_ok s" and "list_all (\<lambda>item. state (snd item) = COLD) (model_slots s)"
  shows "active_locks s = []"
proof (cases "active_locks s")
  case Nil
  then show ?thesis .
next
  case (Cons l ls)
  then have "fst l \<in> set (map fst (active_locks s))" by simp
  with assms(1) obtain slot where "map_of (model_slots s) (fst l) = Some slot" "state slot = WARM"
    unfolding locks_ok_def by blast
  then have "(fst l, slot) \<in> set (model_slots s)" "state slot \<noteq> COLD"
    by (auto dest: map_of_SomeD)
  with assms(2) show ?thesis by (auto simp: list_all_iff)
qed

lemma collapse_noop:
  assumes "locks_ok s" and "worker s \<noteq> Some True"
    and "list_all (\<lambda>item. state (snd item) = COLD) (model_slots s)"
  shows "collapse_to_zero force s = s"
  using all_cold_no_locks[OF assms(1,3)] assms(2) cold_map_id[OF assms(3)]
  by (simp add: collapse_to_zero_def Let_def)

text \<open>
  Claim C5. \<open>collapse_to_zero\<close> is idempotent: a second call changes nothing, and after
  a call the status shows no live worker, no active model and no lock, every slot being
  \<open>COLD\<close>. The operation is a total function with no raising branch. In a state reached
  from the constructor whose status shows no live worker and no active model, the call
  changes nothing at all.
\<close>

theorem collapse_idempotent:
  "collapse_to_zero force2 (collapse_to_zero force s) = collapse_to_zero force s
   \<and> worker_alive (get_status tier (collapse_to_zero force s)) = False
   \<and> list_all (\<lambda>item. state (snd item) = COLD) (model_slots (collapse_to_zero force s))
   \<and> active_models (get_status tier (collapse_to_zero force s)) = []
   \<and> status_locks (get_status tier (collapse_to_zero force s)) = []
   \<and> (\<forall>tier0 calls.
        \<not> worker_alive (get_status tier (run (init_orchestrator tier0) calls))
        \<and> active_models (get_status tier (run (init_orchestrator tier0) calls)) = []
        \<longrightarrow> collapse_to_zero force (run (init_orchestrator tier0) calls)
              = run (init_orchestrator tier0) calls)"
proof -
  have "collapse_to_zero force (run (init_orchestrator tier0) calls) = run (init_orchestrator tier0) calls"
    if a: "\<not> worker_alive (get_status tier (run (init_orchestrator tier0) calls))"
    and b: "active_models (get_status tier (run (init_orchestrator tier0) calls)) = []"
    for tier0 calls
  proof -
    have l: "locks_ok (run (init_orchestrator tier0) calls)"
      by (rule locks_ok_run[OF locks_ok_init])
    have w: "worker (run (init_orchestrator tier0) calls) \<noteq> Some True"
      using a by (auto simp: get_status_def)
    have "filter (\<lambda>(k, slot). state slot \<noteq> COLD) (model_slots (run (init_orchestrator tier0) calls)) = []"
      using b by (simp add: get_status_def)
    then have c: "list_all (\<lambda>item. state (snd item) = COLD) (model_slots (run (init_orchestrator tier0) calls))"
      by (rule filter_empty_cold)
    show ?thesis by (rule collapse_noop[OF l w c])
  qed
  then show ?thesis
    using collapse_twice[of force2 force s] collapse_status[of tier force s]
      collapse_slots_cold[of force s]
    by blast
qed

theorem collapse_idempotent_witness:
  "worker (run (init_orchestrator RONIN)
      [Request RONIN ''m1'' False 0, Generate RONIN ''prose'' 1]) = Some True
   \<and> collapse_to_zero True (collapse_to_zero False (run (init_orchestrator RONIN)
        [Request RONIN ''m1'' False 0, Generate RONIN ''prose'' 1]))
      = collapse_to_zero False (run (init_orchestrator RONIN)
        [Request RONIN ''m1'' False 0, Generate RONIN ''prose'' 1])
   \<and> \<not> worker_alive (get_status RONIN (run (init_orchestrator RONIN) []))
   \<and> active_models (get_status RONIN (run (init_orchestrator RONIN) [])) = []
   \<and> collapse_to_zero False (run (init_orchestrator RONIN) []) = run (init_orchestrator RONIN) []"
proof -
  have a: "worker (run (init_orchestrator RONIN)
      [Request RONIN ''m1'' False 0, Generate RONIN ''prose'' 1]) = Some True"
    by (simp add: orch_defs)
  have b: "\<not> worker_alive (get_status RONIN (run (init_orchestrator RONIN) []))"
     and c: "active_models (get_status RONIN (run (init_orchestrator RONIN) [])) = []"
    by (simp_all add: orch_defs)
  show ?thesis
    using a b c
      collapse_idempotent[of True False "run (init_orchestrator RONIN)
        [Request RONIN ''m1'' False 0, Generate RONIN ''prose'' 1]" RONIN]
      collapse_idempotent[of False False "run (init_orchestrator RONIN) []" RONIN]
    by blast
qed

section \<open>Release and idle sweep\<close>








section \<open>Failure handling in the worker\<close>















section \<open>Batch generation\<close>






lemma requested_model_path_prompt [simp]:
  "requested_model_path (t\<lparr>task_prompt := p\<rparr>) = requested_model_path t"
  by (simp add: requested_model_path_def)





end
